theory Spec2Isabelle
  imports Complex_Main "HOL-Library.Sublist" "HOL-Library.Multiset"
begin

section \<open>The blog application of app.js\<close>

text \<open>
  The application keeps every post in one JSON document and answers seven routes. Each
  route handler of \<^verbatim>\<open>app.js\<close> is embedded as a function from the request's parameters
  and the state of the store to the response and the new state of the store.

  Conventions of the embedding:
  \<^item> A JavaScript string is the list of its UTF-16 code units, each an integer
    (\<open>js_string\<close>). A literal of the source is written \<open>js ''...''\<close>. The messages and
    names that the application only hands to a view or to a package stay literals.
  \<^item> A JavaScript number that holds an integer is an \<^typ>\<open>int\<close>; \<open>NaN\<close> is \<open>None\<close> of
    \<^typ>\<open>int option\<close>. What the source computes on such numbers (\<^verbatim>\<open>parseInt\<close>, one
    addition, one multiplication by six) is exact below \<open>2^53\<close>, where the model and the
    source agree.
  \<^item> A request parameter is a string or \<open>None\<close>, when the request does not carry it
    (\<open>undefined\<close> in the source).
  \<^item> What the JavaScript runtime and the packages \<^verbatim>\<open>marked\<close> and \<^verbatim>\<open>sanitize-html\<close>
    compute is not code of the application: it enters as the record \<open>runtime\<close>.
  \<^item> The view that renders a response is not modelled: a response is the status, the
    view's name and the values handed to it.
\<close>

subsection \<open>Code units and strings\<close>

type_synonym js_string = "int list"

text \<open>The code units of a literal of the source (all below 256).\<close>

definition js :: "string \<Rightarrow> js_string" where
  "js s = map of_char s"

text \<open>The white space of \<^verbatim>\<open>parseInt\<close> and of the regular expression \<^verbatim>\<open>\s\<close>: TAB, LF, VT,
  FF, CR, the space, the no-break space, U+1680, U+2000 to U+200A, the line and paragraph
  separators, U+202F, U+205F, U+3000 and U+FEFF.\<close>

definition is_js_space :: "int \<Rightarrow> bool" where
  "is_js_space u =
     (u \<in> {9, 10, 11, 12, 13, 32, 160, 0x1680, 0x2028, 0x2029, 0x202F, 0x205F, 0x3000, 0xFEFF}
      \<or> (0x2000 \<le> u \<and> u \<le> 0x200A))"

text \<open>The value of a code unit as a digit: \<open>0-9\<close>, then \<open>a-z\<close> or \<open>A-Z\<close> for ten and above.\<close>

definition digit_value :: "int \<Rightarrow> nat option" where
  "digit_value u =
     (if 48 \<le> u \<and> u \<le> 57 then Some (nat (u - 48))
      else if 97 \<le> u \<and> u \<le> 122 then Some (nat (u - 87))
      else if 65 \<le> u \<and> u \<le> 90 then Some (nat (u - 55))
      else None)"

text \<open>\<^verbatim>\<open>s.includes(q)\<close>: \<open>q\<close> starts at some index of \<open>s\<close>.\<close>

fun str_includes :: "js_string \<Rightarrow> js_string \<Rightarrow> bool" where
  "str_includes [] q = (q = [])"
| "str_includes (c # cs) q = (prefix q (c # cs) \<or> str_includes cs q)"

text \<open>\<^verbatim>\<open>s.substring(0, n)\<close> for a length \<open>n\<close> that is not negative.\<close>

definition substring0 :: "js_string \<Rightarrow> nat \<Rightarrow> js_string" where
  "substring0 s n = take n s"

text \<open>\<^verbatim>\<open>s.split(/\s+/).length\<close>: the expression matches each maximal run of white space
  once, so the pieces are one more than the runs, and a string without white space
  (the empty one too) is one piece. \<open>ws_runs in_run s\<close> counts the runs of \<open>s\<close>
  that start at or after its first code unit, where \<open>in_run\<close> tells that the code unit
  before was white space.\<close>

fun ws_runs :: "bool \<Rightarrow> js_string \<Rightarrow> nat" where
  "ws_runs in_run [] = 0"
| "ws_runs in_run (c # cs) =
     (if is_js_space c then (if in_run then 0 else 1) + ws_runs True cs
      else ws_runs False cs)"

definition split_ws_length :: "js_string \<Rightarrow> nat" where
  "split_ws_length s = ws_runs False s + 1"

text \<open>\<^verbatim>\<open>Math.ceil(n / d)\<close> for a count \<open>n\<close> and a positive \<open>d\<close>.\<close>

definition ceil_div :: "nat \<Rightarrow> nat \<Rightarrow> nat" where
  "ceil_div n d = (n + d - 1) div d"

subsection \<open>parseInt\<close>

text \<open>
  \<^verbatim>\<open>parseInt(v)\<close> with no radix: the argument is turned into a string (\<open>undefined\<close> into
  \<^verbatim>\<open>"undefined"\<close>, which starts with no digit), leading white space is dropped, one sign
  is read, then the prefix \<^verbatim>\<open>0x\<close> or \<^verbatim>\<open>0X\<close> selects radix 16 (radix 10 otherwise), and
  the longest run of digits of the radix is the value; no digit gives \<open>NaN\<close>. Both zeros
  of JavaScript are \<open>Some 0\<close>.
\<close>

fun leading_digits :: "nat \<Rightarrow> js_string \<Rightarrow> nat list" where
  "leading_digits R [] = []"
| "leading_digits R (c # cs) =
     (case digit_value c of
        None \<Rightarrow> []
      | Some d \<Rightarrow> if d < R then d # leading_digits R cs else [])"

definition digits_value :: "nat \<Rightarrow> nat list \<Rightarrow> nat" where
  "digits_value R ds = foldl (\<lambda>a d. a * R + d) 0 ds"

definition parseInt :: "js_string option \<Rightarrow> int option" where
  "parseInt v =
     (case v of
        None \<Rightarrow> None
      | Some s \<Rightarrow>
          (let t = dropWhile is_js_space s;
               neg = prefix (js ''-'') t;
               u = (if prefix (js ''-'') t \<or> prefix (js ''+'') t then drop 1 t else t);
               hex = (prefix (js ''0x'') u \<or> prefix (js ''0X'') u);
               R = (if hex then 16 else 10);
               ds = leading_digits R (if hex then drop 2 u else u)
           in if ds = [] then None
              else Some ((if neg then - 1 else 1) * int (digits_value R ds))))"

subsection \<open>Arrays\<close>

text \<open>\<^verbatim>\<open>xs.slice(start, fin)\<close>: an index below zero counts from the end, and both indices
  are clamped to the array.\<close>

definition slice :: "'a list \<Rightarrow> int \<Rightarrow> int \<Rightarrow> 'a list" where
  "slice xs start fin =
     (let len = int (length xs);
          k = (if start < 0 then max (len + start) 0 else min start len);
          final = (if fin < 0 then max (len + fin) 0 else min fin len)
      in take (nat (final - k)) (drop (nat k) xs))"

text \<open>
  \<^verbatim>\<open>xs.sort(comparefn)\<close>. A comparison that is \<open>NaN\<close> counts as zero. The sort is stable,
  and for a consistent comparison function its result is the same in every engine: the
  model computes it by insertion, an element staying in front of the elements it does
  not compare greater than. (With an inconsistent comparison function the language leaves
  the order to the engine; the theorems about the order assume dates that are all valid,
  which makes the comparison of the application consistent.)
\<close>

definition sort_compare :: "('a \<Rightarrow> 'a \<Rightarrow> int option) \<Rightarrow> 'a \<Rightarrow> 'a \<Rightarrow> int" where
  "sort_compare comparefn x y = (case comparefn x y of None \<Rightarrow> 0 | Some v \<Rightarrow> v)"

fun sort_insert :: "('a \<Rightarrow> 'a \<Rightarrow> int option) \<Rightarrow> 'a \<Rightarrow> 'a list \<Rightarrow> 'a list" where
  "sort_insert comparefn x [] = [x]"
| "sort_insert comparefn x (y # ys) =
     (if sort_compare comparefn x y \<le> 0 then x # y # ys
      else y # sort_insert comparefn x ys)"

definition array_sort :: "('a \<Rightarrow> 'a \<Rightarrow> int option) \<Rightarrow> 'a list \<Rightarrow> 'a list" where
  "array_sort comparefn xs = foldr (sort_insert comparefn) xs []"

text \<open>\<^verbatim>\<open>xs.find(pred)\<close> is \<^const>\<open>List.find\<close>; \<^verbatim>\<open>xs.findIndex(pred)\<close> is the first index
  whose element satisfies the predicate, or \<open>-1\<close>.\<close>

fun findIndex_from :: "int \<Rightarrow> ('a \<Rightarrow> bool) \<Rightarrow> 'a list \<Rightarrow> int" where
  "findIndex_from i pred [] = - 1"
| "findIndex_from i pred (x # xs) = (if pred x then i else findIndex_from (i + 1) pred xs)"

definition findIndex :: "('a \<Rightarrow> bool) \<Rightarrow> 'a list \<Rightarrow> int" where
  "findIndex pred xs = findIndex_from 0 pred xs"

text \<open>\<^verbatim>\<open>Math.max(...ns)\<close>: \<open>None\<close> stands for \<open>-Infinity\<close>, the maximum of no number.\<close>

fun math_max :: "int list \<Rightarrow> int option" where
  "math_max [] = None"
| "math_max (n # ns) = (case math_max ns of None \<Rightarrow> Some n | Some m \<Rightarrow> Some (max n m))"

text \<open>\<^verbatim>\<open>xs[i]\<close>: \<open>undefined\<close> (here \<open>None\<close>) outside the array.\<close>

definition at_index :: "'a list \<Rightarrow> int \<Rightarrow> 'a option" where
  "at_index xs i = (if 0 \<le> i \<and> i < int (length xs) then Some (xs ! nat i) else None)"

text \<open>\<^verbatim>\<open>n || d\<close> for a number \<open>n\<close>: \<open>NaN\<close> and zero are falsy. \<^verbatim>\<open>!s\<close> and \<^verbatim>\<open>s || d\<close> for a
  parameter \<open>s\<close>: \<open>undefined\<close> and the empty string are falsy.\<close>

definition number_or :: "int option \<Rightarrow> int \<Rightarrow> int" where
  "number_or n d = (case n of None \<Rightarrow> d | Some v \<Rightarrow> if v = 0 then d else v)"

definition falsy :: "js_string option \<Rightarrow> bool" where
  "falsy s = (case s of None \<Rightarrow> True | Some v \<Rightarrow> v = [])"

definition string_or :: "js_string option \<Rightarrow> js_string \<Rightarrow> js_string" where
  "string_or s d = (case s of None \<Rightarrow> d | Some v \<Rightarrow> if v = [] then d else v)"

text \<open>\<^verbatim>\<open>x === n\<close> between the numeric identifier of a post and the result of
  \<^verbatim>\<open>parseInt\<close>: \<open>NaN\<close> is equal to nothing.\<close>

definition strict_equal :: "int \<Rightarrow> int option \<Rightarrow> bool" where
  "strict_equal x n = (case n of None \<Rightarrow> False | Some v \<Rightarrow> x = v)"

subsection \<open>Posts and the document that stores them\<close>

text \<open>A post as \<^verbatim>\<open>POST /add-post\<close> builds it (the field \<^verbatim>\<open>id\<close> is \<open>post_id\<close> here).\<close>

record post =
  post_id :: int
  title :: js_string
  content :: js_string
  excerpt :: js_string
  author :: js_string
  createdAt :: js_string
  readingTime :: int

text \<open>
  The file \<^verbatim>\<open>data/posts.json\<close>: absent, holding \<^verbatim>\<open>{ posts: [...] }\<close>, or in a state in
  which reading or parsing it fails with an error other than \<^verbatim>\<open>ENOENT\<close>. The store is
  the file together with the log of what \<^verbatim>\<open>fs.writeFile\<close> has written to it, oldest
  first. Writing succeeds in the model.
\<close>

datatype document = Absent | Holds "post list" | Unreadable

record store =
  posts_json :: document
  writes :: "post list list"

datatype io_error = Read_error

definition readPosts :: "store \<Rightarrow> io_error + (post list \<times> store)" where
  "readPosts st =
     (case posts_json st of
        Holds ps \<Rightarrow> Inr (ps, st)
      | Absent \<Rightarrow> Inr ([], st\<lparr>posts_json := Holds [], writes := writes st @ [[]]\<rparr>)
      | Unreadable \<Rightarrow> Inl Read_error)"

definition writePosts :: "post list \<Rightarrow> store \<Rightarrow> store" where
  "writePosts ps st = st\<lparr>posts_json := Holds ps, writes := writes st @ [ps]\<rparr>"

subsection \<open>The runtime and the packages\<close>

text \<open>
  \<open>date_time s\<close> is the time value of \<^verbatim>\<open>new Date(s)\<close> in milliseconds, \<open>None\<close> for an
  invalid date; \<open>marked\<close> and \<open>sanitizeHtml\<close> are the two packages, the second with the
  options it is given; \<open>sanitize_defaults\<close> is \<^verbatim>\<open>sanitizeHtml.defaults\<close>, which a call
  without options uses. Of the options, the two that the application sets are modelled.

  \<open>lower_case\<close> is \<^verbatim>\<open>String.prototype.toLowerCase\<close> on a string that is not empty. The
  lower case of such a string is not empty either, so the runtime gives it in two parts:
  \<open>lower_case u us\<close> is the first code unit and the rest of the lower case of the string
  \<open>u # us\<close>. The empty string is its own lower case.
\<close>

record sanitize_options =
  allowedTags :: "string list"
  allowedAttributes :: "string \<Rightarrow> string list option"

record runtime =
  date_time :: "js_string \<Rightarrow> int option"
  lower_case :: "int \<Rightarrow> js_string \<Rightarrow> int \<times> js_string"
  marked :: "js_string \<Rightarrow> js_string"
  sanitizeHtml :: "sanitize_options \<Rightarrow> js_string \<Rightarrow> js_string"
  sanitize_defaults :: sanitize_options

definition toLowerCase :: "runtime \<Rightarrow> js_string \<Rightarrow> js_string" where
  "toLowerCase rt s =
     (case s of
        [] \<Rightarrow> []
      | u # us \<Rightarrow> (case lower_case rt u us of (v, vs) \<Rightarrow> v # vs))"

definition sanitize_plain :: "runtime \<Rightarrow> js_string \<Rightarrow> js_string" where
  "sanitize_plain rt s = sanitizeHtml rt (sanitize_defaults rt) s"

definition processPostContent :: "runtime \<Rightarrow> js_string \<Rightarrow> js_string" where
  "processPostContent rt c =
     (let htmlContent = marked rt c in
      sanitizeHtml rt
        \<lparr> allowedTags = allowedTags (sanitize_defaults rt) @ [''img'', ''h1'', ''h2'', ''h3''],
          allowedAttributes =
            (allowedAttributes (sanitize_defaults rt))
              (''a'' \<mapsto> [''href'', ''target'', ''rel''],
               ''img'' \<mapsto> [''src'', ''alt'', ''title'']) \<rparr>
        htmlContent)"

text \<open>The comparison function of every sort of the application:
  \<^verbatim>\<open>(a, b) => new Date(b.createdAt) - new Date(a.createdAt)\<close>, \<open>NaN\<close> when a date is invalid.\<close>

definition by_date :: "runtime \<Rightarrow> post \<Rightarrow> post \<Rightarrow> int option" where
  "by_date rt a b =
     (case date_time rt (createdAt b) of
        None \<Rightarrow> None
      | Some tb \<Rightarrow>
          (case date_time rt (createdAt a) of
             None \<Rightarrow> None
           | Some ta \<Rightarrow> Some (tb - ta)))"

definition sortedPosts :: "runtime \<Rightarrow> post list \<Rightarrow> post list" where
  "sortedPosts rt posts = array_sort (by_date rt) posts"

subsection \<open>Responses\<close>

text \<open>
  What a handler hands to \<^verbatim>\<open>res.render\<close>, by view: \<^verbatim>\<open>home\<close> gets the featured posts;
  \<^verbatim>\<open>posts\<close> gets the posts of the page, \<^verbatim>\<open>currentPage\<close> and \<^verbatim>\<open>totalPages\<close>; \<^verbatim>\<open>post\<close> gets
  the post, its \<^verbatim>\<open>processedContent\<close>, \<^verbatim>\<open>prevPost\<close> and \<^verbatim>\<open>nextPost\<close>; \<^verbatim>\<open>search\<close> gets the
  query as the request wrote it and the posts found; \<^verbatim>\<open>error\<close> gets the message.
  A redirect goes to \<^verbatim>\<open>/\<close> or to \<^verbatim>\<open>/post?id=n\<close>.
\<close>

datatype view =
    Home_view "post list"
  | Posts_view "post list" int nat
  | Post_view post js_string "post option" "post option"
  | Add_post_view
  | Search_view "js_string option" "post list"
  | Error_view string

datatype location = To_home | To_post int

datatype response =
    Page nat view
  | Redirect location
  | Preview_json js_string
  | Error_json nat string

subsection \<open>The route handlers\<close>

text \<open>\<^verbatim>\<open>GET /\<close>\<close>

definition get_home :: "runtime \<Rightarrow> store \<Rightarrow> response \<times> store" where
  "get_home rt st =
     (case readPosts st of
        Inl e \<Rightarrow> (Page 500 (Error_view ''Error loading homepage''), st)
      | Inr (posts, st') \<Rightarrow>
          (let featuredPosts = slice (sortedPosts rt posts) 0 3
           in (Page 200 (Home_view featuredPosts), st')))"

text \<open>\<^verbatim>\<open>GET /posts\<close>: \<open>listing\<close> is the handler from line 120 on, for the page number that
  line 119 computes.\<close>

definition listing :: "runtime \<Rightarrow> int \<Rightarrow> post list \<Rightarrow> view" where
  "listing rt page posts =
     (let limit = 6;
          sorted = sortedPosts rt posts;
          totalPosts = length sorted;
          totalPages = ceil_div totalPosts limit;
          offset = (page - 1) * int limit;
          paginatedPosts = slice sorted offset (offset + int limit)
      in Posts_view paginatedPosts page totalPages)"

definition get_posts :: "runtime \<Rightarrow> js_string option \<Rightarrow> store \<Rightarrow> response \<times> store" where
  "get_posts rt page_param st =
     (let page = number_or (parseInt page_param) 1 in
      case readPosts st of
        Inl e \<Rightarrow> (Page 500 (Error_view ''Error loading posts''), st)
      | Inr (posts, st') \<Rightarrow> (Page 200 (listing rt page posts), st'))"

text \<open>\<^verbatim>\<open>GET /post\<close>: \<open>locate\<close> is the handler from line 153 on, for the identifier that
  line 151 parses and the posts that line 152 reads.\<close>

definition locate :: "runtime \<Rightarrow> int option \<Rightarrow> post list \<Rightarrow> response" where
  "locate rt ident posts =
     (case find (\<lambda>p. strict_equal (post_id p) ident) posts of
        None \<Rightarrow> Page 404 (Error_view ''Post not found'')
      | Some p \<Rightarrow>
          (let sorted = sortedPosts rt posts;
               currentIndex = findIndex (\<lambda>p. strict_equal (post_id p) ident) sorted;
               prevPost = (if currentIndex < int (length sorted) - 1
                           then at_index sorted (currentIndex + 1) else None);
               nextPost = (if currentIndex > 0
                           then at_index sorted (currentIndex - 1) else None)
           in Page 200 (Post_view p (processPostContent rt (content p)) prevPost nextPost)))"

definition get_post :: "runtime \<Rightarrow> js_string option \<Rightarrow> store \<Rightarrow> response \<times> store" where
  "get_post rt id_param st =
     (let ident = parseInt id_param in
      case readPosts st of
        Inl e \<Rightarrow> (Page 500 (Error_view ''Error loading post''), st)
      | Inr (posts, st') \<Rightarrow> (locate rt ident posts, st'))"

text \<open>\<^verbatim>\<open>GET /add-post\<close>\<close>

definition get_add_post :: "store \<Rightarrow> response \<times> store" where
  "get_add_post st = (Page 200 Add_post_view, st)"

text \<open>\<^verbatim>\<open>POST /preview-post\<close>: \<^verbatim>\<open>marked\<close> throws on a content that is \<open>undefined\<close>.\<close>

definition post_preview_post ::
  "runtime \<Rightarrow> js_string option \<Rightarrow> store \<Rightarrow> response \<times> store" where
  "post_preview_post rt content_param st =
     (case content_param of
        None \<Rightarrow> (Error_json 500 ''Error generating preview'', st)
      | Some c \<Rightarrow> (Preview_json (processPostContent rt c), st))"

text \<open>\<^verbatim>\<open>POST /add-post\<close>: the body of the request, and \<open>now\<close> for
  \<^verbatim>\<open>new Date().toISOString()\<close> at the request.\<close>

record add_post_body =
  body_title :: "js_string option"
  body_content :: "js_string option"
  body_author :: "js_string option"
  body_excerpt :: "js_string option"

text \<open>The string of a parameter that the check of the required fields has found
  present.\<close>

definition present :: "js_string option \<Rightarrow> js_string" where
  "present s = (case s of None \<Rightarrow> [] | Some v \<Rightarrow> v)"

definition newPost ::
  "runtime \<Rightarrow> js_string \<Rightarrow> js_string \<Rightarrow> js_string \<Rightarrow> js_string \<Rightarrow> js_string option \<Rightarrow>
   post list \<Rightarrow> post"
  where
  "newPost rt now title' content' author' excerpt' posts =
     \<lparr> post_id = (if length posts > 0
                  then (case math_max (map post_id posts) of None \<Rightarrow> 1 | Some m \<Rightarrow> m + 1)
                  else 1),
       title = sanitize_plain rt title',
       content = content',
       excerpt = sanitize_plain rt (string_or excerpt' (substring0 content' 150 @ js ''...'')),
       author = sanitize_plain rt author',
       createdAt = now,
       readingTime = int (ceil_div (split_ws_length content') 200) \<rparr>"

definition post_add_post ::
  "runtime \<Rightarrow> js_string \<Rightarrow> add_post_body \<Rightarrow> store \<Rightarrow> response \<times> store" where
  "post_add_post rt now body st =
     (if falsy (body_title body) \<or> falsy (body_content body) \<or> falsy (body_author body)
      then (Page 400 (Error_view ''All fields are required''), st)
      else
        (case readPosts st of
           Inl e \<Rightarrow> (Page 500 (Error_view ''Error saving post''), st)
         | Inr (posts, st') \<Rightarrow>
             (let p = newPost rt now (present (body_title body)) (present (body_content body))
                        (present (body_author body)) (body_excerpt body) posts
              in (Redirect (To_post (post_id p)), writePosts (posts @ [p]) st'))))"

text \<open>\<^verbatim>\<open>GET /search\<close>\<close>

definition matches :: "runtime \<Rightarrow> js_string \<Rightarrow> post \<Rightarrow> bool" where
  "matches rt query p =
     (str_includes (toLowerCase rt (title p)) query \<or>
      str_includes (toLowerCase rt (content p)) query \<or>
      str_includes (toLowerCase rt (author p)) query)"

definition get_search :: "runtime \<Rightarrow> js_string option \<Rightarrow> store \<Rightarrow> response \<times> store" where
  "get_search rt q st =
     (let query = toLowerCase rt (string_or q []) in
      if query = [] then (Redirect To_home, st)
      else
        (case readPosts st of
           Inl e \<Rightarrow> (Page 500 (Error_view ''Error performing search''), st)
         | Inr (posts, st') \<Rightarrow>
             (let searchResults = array_sort (by_date rt) (filter (matches rt query) posts)
              in (Page 200 (Search_view q searchResults), st'))))"

subsection \<open>A runtime for the examples\<close>

text \<open>
  The examples below run the handlers on concrete requests. Their runtime knows the
  dates the examples use (a date without a time is midnight UTC), and gives for the
  packages what they return on a line of plain text: \<^verbatim>\<open>marked\<close> makes it a paragraph, and
  \<^verbatim>\<open>sanitize-html\<close> writes the characters \<^verbatim>\<open>&\<close>, \<^verbatim>\<open><\<close> and \<^verbatim>\<open>>\<close> of a text without markup
  and without character references as character references, whatever the options. The
  examples evaluate the second on such text only: where a response carries the processed
  content of a post, they leave it as the term \<open>processPostContent\<close> of the content.
\<close>

definition example_dates :: "js_string \<Rightarrow> int option" where
  "example_dates =
     map_of [(js ''2024-01-01'', 1704067200000),
             (js ''2024-02-01'', 1706745600000),
             (js ''2024-03-01T10:00:00.000Z'', 1709287200000)]"

fun escape_text :: "js_string \<Rightarrow> js_string" where
  "escape_text [] = []"
| "escape_text (u # us) =
     (if u = 38 then js ''&amp;''
      else if u = 60 then js ''&lt;''
      else if u = 62 then js ''&gt;''
      else [u]) @ escape_text us"

text \<open>
  The lower case of the examples is the one of ECMAScript on text whose code units are
  below 256 or Greek capital letters. A code unit that is a capital letter \<open>A-Z\<close>, a
  capital letter of Latin-1 (U+00C0 to U+00DE without the multiplication sign) or a Greek
  capital letter (U+0391 to U+03A9) moves up by 32, every other unit stays; but a capital
  sigma (U+03A3) that follows a letter and is followed by none becomes the final sigma
  (U+03C2), not the sigma (U+03C3).
\<close>

definition lower_unit :: "int \<Rightarrow> int" where
  "lower_unit u =
     (if (65 \<le> u \<and> u \<le> 90) \<or> (192 \<le> u \<and> u \<le> 222 \<and> u \<noteq> 215) \<or>
         (0x391 \<le> u \<and> u \<le> 0x3A9 \<and> u \<noteq> 0x3A2)
      then u + 32 else u)"

definition is_cased :: "int \<Rightarrow> bool" where
  "is_cased u =
     ((65 \<le> u \<and> u \<le> 90) \<or> (97 \<le> u \<and> u \<le> 122) \<or> u = 181 \<or>
      (192 \<le> u \<and> u \<le> 255 \<and> u \<noteq> 215 \<and> u \<noteq> 247) \<or>
      (0x391 \<le> u \<and> u \<le> 0x3A9 \<and> u \<noteq> 0x3A2) \<or> (0x3B1 \<le> u \<and> u \<le> 0x3C9))"

fun lower_text :: "bool \<Rightarrow> js_string \<Rightarrow> js_string" where
  "lower_text after_cased [] = []"
| "lower_text after_cased (u # us) =
     (if u = 0x3A3
      then (if after_cased \<and> \<not> (case us of [] \<Rightarrow> False | v # vs \<Rightarrow> is_cased v)
            then 0x3C2 else 0x3C3)
      else lower_unit u) # lower_text (is_cased u) us"

definition example_runtime :: runtime where
  "example_runtime =
     \<lparr> date_time = example_dates,
       lower_case = (\<lambda>u us. case lower_text False (u # us) of
                               [] \<Rightarrow> (u, us) | v # vs \<Rightarrow> (v, vs)),
       marked = (\<lambda>s. js ''<p>'' @ s @ js ''</p>'' @ [10]),
       sanitizeHtml = (\<lambda>opts s. escape_text s),
       sanitize_defaults =
         \<lparr> allowedTags = [''p'', ''a'', ''b'', ''i'', ''strong'', ''em'', ''code'', ''br''],
           allowedAttributes = [''a'' \<mapsto> [''href'', ''name'', ''target'']] \<rparr> \<rparr>"

text \<open>The two posts of the specification's example, completed with the fields it leaves
  out, and a third, newer one.\<close>

definition post_A :: post where
  "post_A = \<lparr> post_id = 1, title = js ''A'', content = js ''First post'',
              excerpt = js ''First'', author = js ''Ann'', createdAt = js ''2024-01-01'',
              readingTime = 1 \<rparr>"

definition post_B :: post where
  "post_B = \<lparr> post_id = 2, title = js ''B'', content = js ''Second post'',
              excerpt = js ''Second'', author = js ''Bob'', createdAt = js ''2024-02-01'',
              readingTime = 1 \<rparr>"

definition post_C :: post where
  "post_C = \<lparr> post_id = 3, title = js ''C'', content = js ''Third post'',
              excerpt = js ''Third'', author = js ''Ann'',
              createdAt = js ''2024-03-01T10:00:00.000Z'', readingTime = 1 \<rparr>"

definition store_AB :: store where
  "store_AB = \<lparr> posts_json = Holds [post_A, post_B], writes = [] \<rparr>"

text \<open>A store that holds the three posts in an order that is not the order of their
  dates.\<close>

definition store_BCA :: store where
  "store_BCA = \<lparr> posts_json = Holds [post_B, post_C, post_A], writes = [] \<rparr>"



text \<open>Seven posts, to fill more than one page of the listing.\<close>

definition seven_posts :: "post list" where
  "seven_posts =
     [post_A, post_B, post_C, post_A\<lparr>post_id := 4\<rparr>, post_B\<lparr>post_id := 5\<rparr>,
      post_C\<lparr>post_id := 6\<rparr>, post_A\<lparr>post_id := 7\<rparr>]"

subsection \<open>Notions of the specification\<close>

text \<open>The dates of a collection are valid when the runtime reads each of them as a date.
  A post is not older than another when its time value is not below the other's.\<close>

definition dates_valid :: "runtime \<Rightarrow> post list \<Rightarrow> bool" where
  "dates_valid rt posts = list_all (\<lambda>p. date_time rt (createdAt p) \<noteq> None) posts"

definition not_older :: "runtime \<Rightarrow> post \<Rightarrow> post \<Rightarrow> bool" where
  "not_older rt a b =
     (case date_time rt (createdAt a) of
        None \<Rightarrow> False
      | Some ta \<Rightarrow> (case date_time rt (createdAt b) of None \<Rightarrow> False | Some tb \<Rightarrow> tb \<le> ta))"






text \<open>The posts a view lists, and the posts a store holds (none when the file is absent
  or cannot be read).\<close>

fun view_posts :: "view \<Rightarrow> post list" where
  "view_posts (Home_view ps) = ps"
| "view_posts (Posts_view ps c t) = ps"
| "view_posts (Search_view q ps) = ps"
| "view_posts v = []"

definition stored_posts :: "store \<Rightarrow> post list" where
  "stored_posts st = (case posts_json st of Holds ps \<Rightarrow> ps | Absent \<Rightarrow> [] | Unreadable \<Rightarrow> [])"

text \<open>The store after a load: a file that was absent has been written with no post.\<close>

definition loaded :: "store \<Rightarrow> store" where
  "loaded st =
     (case posts_json st of
        Absent \<Rightarrow> st\<lparr>posts_json := Holds [], writes := writes st @ [[]]\<rparr>
      | Holds ps \<Rightarrow> st
      | Unreadable \<Rightarrow> st)"

section \<open>Properties of the building blocks\<close>

subsection \<open>Literals\<close>

lemma js_empty [simp]: "js s = [] \<longleftrightarrow> s = []"
  by (simp add: js_def)

subsection \<open>Sorting\<close>

lemma mset_sort_insert: "mset (sort_insert c x ys) = add_mset x (mset ys)"
  by (induction ys) auto

lemma mset_array_sort: "mset (array_sort c xs) = mset xs"
  by (induction xs) (auto simp: array_sort_def mset_sort_insert)

lemma set_array_sort: "set (array_sort c xs) = set xs"
  using mset_array_sort [of c xs] by (metis set_mset_mset)

lemma length_array_sort: "length (array_sort c xs) = length xs"
  using mset_array_sort [of c xs] by (metis size_mset)

lemma distinct_ids_array_sort:
  "distinct (map f (array_sort c xs)) = distinct (map f xs)"
proof -
  have "mset (map f (array_sort c xs)) = mset (map f xs)"
    by (simp add: mset_array_sort)
  then show ?thesis by (rule mset_eq_imp_distinct_iff)
qed

lemma sort_insert_valid:
  assumes "date_time rt (createdAt x) \<noteq> None" and "dates_valid rt ys"
  shows "sort_insert (by_date rt) x ys =
         insort_key (\<lambda>p. - (case date_time rt (createdAt p) of None \<Rightarrow> 0 | Some t \<Rightarrow> t)) x ys"
  using assms
  by (induction ys) (auto simp: dates_valid_def sort_compare_def by_date_def)

lemma dates_valid_array_sort: "dates_valid rt (array_sort c xs) = dates_valid rt xs"
  by (simp add: dates_valid_def list_all_iff set_array_sort)

lemma array_sort_valid:
  "dates_valid rt xs \<Longrightarrow>
   array_sort (by_date rt) xs =
   sort_key (\<lambda>p. - (case date_time rt (createdAt p) of None \<Rightarrow> 0 | Some t \<Rightarrow> t)) xs"
proof (induction xs)
  case Nil show ?case by (simp add: array_sort_def)
next
  case (Cons x xs)
  then have x: "date_time rt (createdAt x) \<noteq> None" and xs: "dates_valid rt xs"
    by (simp_all add: dates_valid_def)
  have "array_sort (by_date rt) (x # xs) = sort_insert (by_date rt) x (array_sort (by_date rt) xs)"
    by (simp add: array_sort_def)
  also have "\<dots> = insort_key (\<lambda>p. - (case date_time rt (createdAt p) of None \<Rightarrow> 0 | Some t \<Rightarrow> t)) x
                     (array_sort (by_date rt) xs)"
    using x xs by (intro sort_insert_valid) (simp_all add: dates_valid_array_sort)
  finally show ?case using Cons.IH [OF xs] by simp
qed

lemma sortedPosts_ordered:
  assumes "dates_valid rt posts"
  shows "sorted_wrt (not_older rt) (sortedPosts rt posts)"
proof -
  let ?key = "\<lambda>p. - (case date_time rt (createdAt p) of None \<Rightarrow> 0 | Some t \<Rightarrow> t)"
  have "sorted (map ?key (sort_key ?key posts))" by (rule sorted_sort_key)
  then have "sorted_wrt (\<lambda>a b. ?key a \<le> ?key b) (sortedPosts rt posts)"
    using assms by (simp add: sortedPosts_def array_sort_valid sorted_map)
  moreover have "not_older rt a b"
    if "a \<in> set (sortedPosts rt posts)" "b \<in> set (sortedPosts rt posts)" "?key a \<le> ?key b"
    for a b
    using that assms
    by (auto simp: sortedPosts_def set_array_sort dates_valid_def list_all_iff not_older_def
        split: option.splits)
  ultimately show ?thesis by (rule sorted_wrt_mono_rel [rotated])
qed


lemma sortedPosts_mset: "mset (sortedPosts rt posts) = mset posts"
  by (simp add: sortedPosts_def mset_array_sort)

lemma sortedPosts_length: "length (sortedPosts rt posts) = length posts"
  by (simp add: sortedPosts_def length_array_sort)

lemma sortedPosts_set: "set (sortedPosts rt posts) = set posts"
  by (simp add: sortedPosts_def set_array_sort)

lemma sortedPosts_distinct_ids:
  "distinct (map post_id (sortedPosts rt posts)) = distinct (map post_id posts)"
  by (simp add: sortedPosts_def distinct_ids_array_sort)

lemma sortedPosts_distinct:
  "distinct (map post_id posts) \<Longrightarrow> distinct (sortedPosts rt posts)"
  using distinct_ids_array_sort [of post_id "by_date rt" posts]
  by (simp add: sortedPosts_def distinct_map)

subsection \<open>Slices and pages\<close>

lemma slice_from:
  "0 \<le> a \<Longrightarrow> slice xs a (a + int m) = take m (drop (nat a) xs)"
  by (auto simp: slice_def Let_def min_def max_def)

lemma concat_pages: "concat (map (\<lambda>k. take m (drop (k * m) xs)) [0..<t]) = take (t * m) xs"
proof (induction t)
  case 0 show ?case by simp
next
  case (Suc t)
  have "take (t * m + m) xs = take (t * m) xs @ take m (drop (t * m) xs)"
    by (simp add: take_add)
  with Suc show ?case by (simp add: add.commute)
qed

lemma pages_disjoint:
  assumes "distinct xs" and "i < j"
  shows "set (take m (drop (i * m) xs)) \<inter> set (take m (drop (j * m) xs)) = {}"
proof -
  have "Suc i * m \<le> j * m" using assms(2) by (intro mult_le_mono1) simp
  then obtain e where e: "j * m = (i * m + m) + e"
    by (metis le_Suc_ex mult_Suc add.commute)
  have "take m (drop (i * m) xs) = drop (i * m) (take (i * m + m) xs)"
    by (simp add: drop_take)
  then have a: "set (take m (drop (i * m) xs)) \<subseteq> set (take (i * m + m) xs)"
    by (simp add: set_drop_subset)
  have "drop (j * m) xs = drop e (drop (i * m + m) xs)"
    by (simp add: e add.commute)
  then have b: "set (take m (drop (j * m) xs)) \<subseteq> set (drop (i * m + m) xs)"
    by (metis set_take_subset set_drop_subset subset_trans)
  have "set (take (i * m + m) xs) \<inter> set (drop (i * m + m) xs) = {}"
    using assms(1) by (rule set_take_disj_set_drop_if_distinct) simp
  with a b show ?thesis by blast
qed

lemma ceil_div_covers:
  assumes "0 < d" shows "n \<le> ceil_div n d * d"
proof -
  have "(n + d - 1) mod d < d" using assms by simp
  moreover have "(n + d - 1) div d * d + (n + d - 1) mod d = n + d - 1" by simp
  ultimately show ?thesis unfolding ceil_div_def by linarith
qed

lemma ceil_div_tight:
  assumes "0 < d" shows "ceil_div n d * d < n + d"
proof -
  have "(n + d - 1) div d * d + (n + d - 1) mod d = n + d - 1" by simp
  then show ?thesis unfolding ceil_div_def using assms by linarith
qed

lemma ceil_div_real:
  assumes "0 < d" shows "int (ceil_div n d) = \<lceil>real n / real d\<rceil>"
proof -
  have d: "0 < real d" using assms by simp
  have "real n \<le> real (ceil_div n d * d)"
    using ceil_div_covers [OF assms, of n] by (simp only: of_nat_le_iff)
  then have up: "real n / real d \<le> of_int (int (ceil_div n d))"
    using d by (simp add: pos_divide_le_eq)
  have "real (ceil_div n d * d) < real (n + d)"
    using ceil_div_tight [OF assms, of n] by (simp only: of_nat_less_iff)
  then have "(real (ceil_div n d) - 1) * real d < real n"
    by (simp add: algebra_simps)
  then have lo: "of_int (int (ceil_div n d)) - 1 < real n / real d"
    using d by (simp add: pos_less_divide_eq)
  show ?thesis using ceiling_unique [OF lo up] by simp
qed

subsection \<open>Searching an array\<close>

lemma find_unique:
  "distinct (map f xs) \<Longrightarrow> x \<in> set xs \<Longrightarrow> find (\<lambda>p. f p = f x) xs = Some x"
  by (induction xs) (auto simp: image_iff)

lemma findIndex_from_unique:
  "distinct (map f xs) \<Longrightarrow> k < length xs \<Longrightarrow>
   findIndex_from i (\<lambda>p. f p = f (xs ! k)) xs = i + int k"
proof (induction xs arbitrary: i k)
  case Nil then show ?case by simp
next
  case (Cons x xs)
  show ?case
  proof (cases k)
    case 0 then show ?thesis by simp
  next
    case (Suc j)
    with Cons.prems have "j < length xs" and "f x \<noteq> f (xs ! j)" by (auto simp: image_iff)
    with Cons.IH [of j "i + 1"] Cons.prems Suc show ?thesis by simp
  qed
qed

subsection \<open>Searching a string\<close>





lemma toLowerCase_empty: "toLowerCase rt s = [] \<longleftrightarrow> s = []"
  by (simp add: toLowerCase_def split: list.split prod.split)

subsection \<open>The store\<close>

lemma readPosts_readable:
  "posts_json st \<noteq> Unreadable \<Longrightarrow> readPosts st = Inr (stored_posts st, loaded st)"
  by (cases "posts_json st") (simp_all add: readPosts_def stored_posts_def loaded_def)

lemma readPosts_unreadable:
  "posts_json st = Unreadable \<Longrightarrow> readPosts st = Inl Read_error"
  by (simp add: readPosts_def)

lemma loaded_unreadable: "posts_json st = Unreadable \<Longrightarrow> loaded st = st"
  by (simp add: loaded_def)

lemma stored_posts_loaded: "stored_posts (loaded st) = stored_posts st"
  by (cases "posts_json st") (simp_all add: stored_posts_def loaded_def)

lemma math_max_Max: "ns \<noteq> [] \<Longrightarrow> math_max ns = Some (Max (set ns))"
proof (induction ns)
  case Nil then show ?case by simp
next
  case (Cons n ns)
  show ?case
  proof (cases "ns = []")
    case True then show ?thesis by simp
  next
    case False
    with Cons.IH have "math_max ns = Some (Max (set ns))" by simp
    with False show ?thesis by (simp add: max.commute)
  qed
qed

lemma stored_posts_writePosts: "stored_posts (writePosts ps st) = ps"
  by (simp add: stored_posts_def writePosts_def)

section \<open>Creating a post\<close>

text \<open>
  Claim C7. When the title, the content or the author of a creation request is absent or
  empty, \<^verbatim>\<open>POST /add-post\<close> answers with the validation error (status 400) and leaves
  the store as it was: the file and the log of writes are those before the request.
\<close>

theorem add_post_missing_field:
  assumes "body_title body = None \<or> body_title body = Some [] \<or>
           body_content body = None \<or> body_content body = Some [] \<or>
           body_author body = None \<or> body_author body = Some []"
  shows "post_add_post rt now body st = (Page 400 (Error_view ''All fields are required''), st)"
  using assms by (auto simp: post_add_post_def falsy_def)

theorem add_post_missing_field_witness:
  "body_author \<lparr> body_title = Some (js ''T''), body_content = Some (js ''Some text''),
                 body_author = Some [], body_excerpt = None \<rparr> = Some [] \<and>
   post_add_post example_runtime (js ''2024-03-01T10:00:00.000Z'')
     \<lparr> body_title = Some (js ''T''), body_content = Some (js ''Some text''),
       body_author = Some [], body_excerpt = None \<rparr> store_AB
   = (Page 400 (Error_view ''All fields are required''), store_AB) \<and>
   stored_posts store_AB = [post_A, post_B]"
proof -
  let ?body = "\<lparr> body_title = Some (js ''T''), body_content = Some (js ''Some text''),
                  body_author = Some [], body_excerpt = None \<rparr>"
  have h: "body_author ?body = Some []" by simp
  have s: "stored_posts store_AB = [post_A, post_B]"
    by (simp add: stored_posts_def store_AB_def)
  from h have "body_title ?body = None \<or> body_title ?body = Some [] \<or>
           body_content ?body = None \<or> body_content ?body = Some [] \<or>
           body_author ?body = None \<or> body_author ?body = Some []" by simp
  from add_post_missing_field [OF this, of example_runtime "js ''2024-03-01T10:00:00.000Z''" store_AB]
  show ?thesis using h s by simp
qed

text \<open>A request with the three required fields, on a store that can be read, redirects to
  the new post and writes the collection with the new post at its end.\<close>

lemma add_post_accepts:
  assumes "body_title body = Some t" and "t \<noteq> []"
      and "body_content body = Some c" and "c \<noteq> []"
      and "body_author body = Some a" and "a \<noteq> []"
      and "posts_json st \<noteq> Unreadable"
  shows "post_add_post rt now body st =
           (Redirect (To_post (post_id (newPost rt now t c a (body_excerpt body) (stored_posts st)))),
            writePosts (stored_posts st @ [newPost rt now t c a (body_excerpt body) (stored_posts st)])
              (loaded st))"
  using assms
  by (simp add: post_add_post_def falsy_def present_def Let_def readPosts_readable)

text \<open>
  Claim C1. For a creation request whose title, content and author are not empty, on a
  store that can be read, the collection stored afterwards is the collection stored
  before with the new post appended, so its size is one more, and the identifier of the new
  post is one more than the largest identifier stored before, or 1 when no post was
  stored. The response redirects to the new post.
\<close>

theorem add_post_valid:
  assumes "body_title body = Some t" and "t \<noteq> []"
      and "body_content body = Some c" and "c \<noteq> []"
      and "body_author body = Some a" and "a \<noteq> []"
      and "posts_json st \<noteq> Unreadable"
  shows "stored_posts (snd (post_add_post rt now body st)) =
           stored_posts st @ [newPost rt now t c a (body_excerpt body) (stored_posts st)] \<and>
         length (stored_posts (snd (post_add_post rt now body st))) = length (stored_posts st) + 1 \<and>
         post_id (newPost rt now t c a (body_excerpt body) (stored_posts st)) =
           (if stored_posts st = [] then 1 else Max (set (map post_id (stored_posts st))) + 1) \<and>
         fst (post_add_post rt now body st) =
           Redirect (To_post (post_id (newPost rt now t c a (body_excerpt body) (stored_posts st))))"
proof -
  let ?posts = "stored_posts st"
  let ?p = "newPost rt now t c a (body_excerpt body) ?posts"
  have run: "post_add_post rt now body st =
        (Redirect (To_post (post_id ?p)), writePosts (?posts @ [?p]) (loaded st))"
    using assms by (rule add_post_accepts)
  have ident: "post_id ?p = (if ?posts = [] then 1 else Max (set (map post_id ?posts)) + 1)"
  proof (cases "?posts = []")
    case True then show ?thesis by (simp add: newPost_def)
  next
    case False
    then have "math_max (map post_id ?posts) = Some (Max (set (map post_id ?posts)))"
      by (intro math_max_Max) simp
    with False show ?thesis by (simp add: newPost_def)
  qed
  show ?thesis
    by (simp only: run ident fst_conv snd_conv stored_posts_writePosts length_append) simp
qed

theorem add_post_valid_witness:
  "stored_posts store_AB = [post_A, post_B] \<and>
   post_add_post example_runtime (js ''2024-03-01T10:00:00.000Z'')
     \<lparr> body_title = Some (js ''C''), body_content = Some (js ''Third post''),
       body_author = Some (js ''Ann''), body_excerpt = Some (js ''Third'') \<rparr> store_AB =
   (Redirect (To_post 3),
    \<lparr> posts_json = Holds [post_A, post_B, post_C], writes = [[post_A, post_B, post_C]] \<rparr>)"
proof -
  let ?body = "\<lparr> body_title = Some (js ''C''), body_content = Some (js ''Third post''),
       body_author = Some (js ''Ann''), body_excerpt = Some (js ''Third'') \<rparr>"
  have s: "stored_posts store_AB = [post_A, post_B]"
    by (simp add: stored_posts_def store_AB_def)
  have r: "posts_json store_AB \<noteq> Unreadable" by (simp add: store_AB_def)
  have n: "newPost example_runtime (js ''2024-03-01T10:00:00.000Z'') (js ''C'') (js ''Third post'') (js ''Ann'')
             (Some (js ''Third'')) [post_A, post_B] = post_C"
    by code_simp
  have e: "post_add_post example_runtime (js ''2024-03-01T10:00:00.000Z'') ?body store_AB =
     (Redirect (To_post 3),
      \<lparr> posts_json = Holds [post_A, post_B, post_C], writes = [[post_A, post_B, post_C]] \<rparr>)"
    by code_simp
  from add_post_valid [of ?body "js ''C''" "js ''Third post''" "js ''Ann''" store_AB example_runtime
      "js ''2024-03-01T10:00:00.000Z''", simplified s n, OF _ _ _ _ _ _ r]
  show ?thesis using s e by simp
qed

text \<open>
  Claim C8, as stated, fails: the excerpt that is stored has gone through
  \<^verbatim>\<open>sanitizeHtml\<close>, which does not return every text as it is. The content
  \<^verbatim>\<open>Tom & Jerry\<close> with no excerpt supplied is stored with the excerpt
  \<^verbatim>\<open>Tom &amp; Jerry...\<close>, which is not the content followed by an ellipsis.
\<close>

theorem add_post_excerpt_counterexample:
  "map excerpt (stored_posts (snd (post_add_post example_runtime (js ''2024-03-01T10:00:00.000Z'')
      \<lparr> body_title = Some (js ''Cartoons''), body_content = Some (js ''Tom & Jerry''),
        body_author = Some (js ''Ann''), body_excerpt = None \<rparr>
      \<lparr> posts_json = Holds [], writes = [] \<rparr>)))
   = [js ''Tom &amp; Jerry...''] \<and>
   (js ''Tom &amp; Jerry...'') \<noteq> substring0 (js ''Tom & Jerry'') 150 @ js ''...''"
  by code_simp

text \<open>
  Claim C8, amended. For a creation request whose title, content and author are not empty,
  on a store that can be read, the excerpt of the stored post is what \<^verbatim>\<open>sanitizeHtml\<close>
  returns for the first 150 code units of the content followed by three dots, when the
  request has no excerpt or an empty one, and what \<^verbatim>\<open>sanitizeHtml\<close> returns for the
  supplied excerpt otherwise.
\<close>

theorem add_post_excerpt:
  assumes "body_title body = Some t" and "t \<noteq> []"
      and "body_content body = Some c" and "c \<noteq> []"
      and "body_author body = Some a" and "a \<noteq> []"
      and "posts_json st \<noteq> Unreadable"
  shows "excerpt (last (stored_posts (snd (post_add_post rt now body st)))) =
           (case body_excerpt body of
              None \<Rightarrow> sanitize_plain rt (take 150 c @ js ''...'')
            | Some e \<Rightarrow> if e = [] then sanitize_plain rt (take 150 c @ js ''...'')
                        else sanitize_plain rt e)"
  by (simp add: add_post_accepts [OF assms] stored_posts_writePosts newPost_def string_or_def
      substring0_def split: option.split)

theorem add_post_excerpt_witness:
  "excerpt (last (stored_posts (snd (post_add_post example_runtime (js ''2024-03-01T10:00:00.000Z'')
      \<lparr> body_title = Some (js ''Cartoons''), body_content = Some (js ''Tom & Jerry''),
        body_author = Some (js ''Ann''), body_excerpt = None \<rparr> store_AB))))
   = js ''Tom &amp; Jerry...'' \<and>
   excerpt (last (stored_posts (snd (post_add_post example_runtime (js ''2024-03-01T10:00:00.000Z'')
      \<lparr> body_title = Some (js ''Cartoons''), body_content = Some (js ''Tom & Jerry''),
        body_author = Some (js ''Ann''), body_excerpt = Some (js ''Cat > mouse'') \<rparr> store_AB))))
   = js ''Cat &gt; mouse''"
proof -
  let ?b1 = "\<lparr> body_title = Some (js ''Cartoons''), body_content = Some (js ''Tom & Jerry''),
        body_author = Some (js ''Ann''), body_excerpt = None \<rparr>"
  let ?b2 = "\<lparr> body_title = Some (js ''Cartoons''), body_content = Some (js ''Tom & Jerry''),
        body_author = Some (js ''Ann''), body_excerpt = Some (js ''Cat > mouse'') \<rparr>"
  have r: "posts_json store_AB \<noteq> Unreadable" by (simp add: store_AB_def)
  have s1: "sanitize_plain example_runtime (take 150 (js ''Tom & Jerry'') @ js ''...'') = js ''Tom &amp; Jerry...''"
    by code_simp
  have s2: "sanitize_plain example_runtime (js ''Cat > mouse'') = js ''Cat &gt; mouse''"
    by code_simp
  have 1: "excerpt (last (stored_posts (snd (post_add_post example_runtime
             (js ''2024-03-01T10:00:00.000Z'') ?b1 store_AB)))) = js ''Tom &amp; Jerry...''"
    using add_post_excerpt [of ?b1 "js ''Cartoons''" "js ''Tom & Jerry''" "js ''Ann''" store_AB
        example_runtime "js ''2024-03-01T10:00:00.000Z''"] r s1
    by simp
  have 2: "excerpt (last (stored_posts (snd (post_add_post example_runtime
             (js ''2024-03-01T10:00:00.000Z'') ?b2 store_AB)))) = js ''Cat &gt; mouse''"
    using add_post_excerpt [of ?b2 "js ''Cartoons''" "js ''Tom & Jerry''" "js ''Ann''" store_AB
        example_runtime "js ''2024-03-01T10:00:00.000Z''"] r s2
    by simp
  from 1 2 show ?thesis by simp
qed

section \<open>The paginated listing\<close>

lemma parseInt_one: "parseInt (Some (js ''1'')) = Some 1"
  by code_simp

text \<open>
  Claim C3, as stated, fails for a page below zero: \<^verbatim>\<open>parseInt\<close> returns the negative
  number, which is truthy, so it is the page. With two posts stored, page \<open>-1\<close> shows no
  post and \<^verbatim>\<open>currentPage\<close> is \<open>-1\<close>, where page 1 shows both posts.
\<close>

theorem posts_negative_page_counterexample:
  "get_posts example_runtime (Some (js ''-1'')) store_AB =
     (Page 200 (Posts_view [] (- 1) 1), store_AB) \<and>
   get_posts example_runtime (Some (js ''1'')) store_AB =
     (Page 200 (Posts_view [post_B, post_A] 1 1), store_AB) \<and>
   get_posts example_runtime (Some (js ''-1'')) store_AB \<noteq> get_posts example_runtime (Some (js ''1'')) store_AB"
  by code_simp

text \<open>
  Claim C3, amended. A page parameter for which \<^verbatim>\<open>parseInt\<close> returns \<open>NaN\<close> (it is
  absent, or no digit follows its leading white space and sign) or zero is treated as
  page 1: the response and the store are those of a request for page 1.
\<close>

theorem posts_default_page:
  assumes "parseInt page_param = None \<or> parseInt page_param = Some 0"
  shows "get_posts rt page_param st = get_posts rt (Some (js ''1'')) st"
proof -
  have "number_or (parseInt page_param) 1 = 1"
    using assms by (auto simp: number_or_def)
  moreover have "number_or (parseInt (Some (js ''1''))) 1 = 1"
    by (simp add: parseInt_one number_or_def)
  ultimately show ?thesis by (simp add: get_posts_def)
qed

theorem posts_default_page_witness:
  "parseInt (Some (js ''abc'')) = None \<and> parseInt (Some (js ''0'')) = Some 0 \<and> parseInt None = None \<and>
   get_posts example_runtime (Some (js ''abc'')) store_AB = get_posts example_runtime (Some (js ''1'')) store_AB \<and>
   get_posts example_runtime (Some (js ''0'')) store_AB = get_posts example_runtime (Some (js ''1'')) store_AB \<and>
   get_posts example_runtime None store_AB = get_posts example_runtime (Some (js ''1'')) store_AB \<and>
   get_posts example_runtime (Some (js ''1'')) store_AB =
     (Page 200 (Posts_view [post_B, post_A] 1 1), store_AB)"
proof -
  have a: "parseInt (Some (js ''abc'')) = None" by code_simp
  have z: "parseInt (Some (js ''0'')) = Some 0" by code_simp
  have n: "parseInt None = None" by code_simp
  have e: "get_posts example_runtime (Some (js ''1'')) store_AB =
     (Page 200 (Posts_view [post_B, post_A] 1 1), store_AB)" by code_simp
  from posts_default_page [of "Some (js ''abc'')" example_runtime store_AB]
       posts_default_page [of "Some (js ''0'')" example_runtime store_AB]
       posts_default_page [of None example_runtime store_AB]
  show ?thesis using a z n e by simp
qed

lemma listing_page:
  "listing rt (int (Suc k)) posts =
   Posts_view (take 6 (drop (k * 6) (sortedPosts rt posts))) (int (Suc k))
     (ceil_div (length posts) 6)"
proof -
  have "slice (sortedPosts rt posts) (int k * 6) (int k * 6 + int 6) =
        take 6 (drop (nat (int k * 6)) (sortedPosts rt posts))"
    by (rule slice_from) simp
  moreover have "nat (int k * 6) = k * 6" by (simp add: nat_mult_distrib)
  ultimately show ?thesis
    by (simp add: listing_def Let_def sortedPosts_length)
qed

lemma get_posts_page:
  "parseInt page_param = Some k \<Longrightarrow> k \<noteq> 0 \<Longrightarrow> posts_json st \<noteq> Unreadable \<Longrightarrow>
   get_posts rt page_param st = (Page 200 (listing rt k (stored_posts st)), loaded st)"
  by (simp add: get_posts_def number_or_def readPosts_readable)

text \<open>
  Claim C6. With six posts to a page and \<^verbatim>\<open>totalPages\<close> the ceiling of the number of
  posts over six, the pages 1 to \<^verbatim>\<open>totalPages\<close>, one after the other, are the whole
  collection as the sort by date arranges it; every page reports this \<^verbatim>\<open>totalPages\<close>;
  in a collection whose identifiers are distinct, two different pages share no post;
  the sorted collection holds the posts of the collection, each as often, and when the
  dates are all valid no post comes before a newer one.
\<close>

theorem listing_pages_partition:
  "concat (map (\<lambda>k. view_posts (listing rt (int k) posts))
             [1..<Suc (nat \<lceil>real (length posts) / 6\<rceil>)]) = sortedPosts rt posts \<and>
   (\<forall>page. listing rt page posts =
            Posts_view (view_posts (listing rt page posts)) page
              (nat \<lceil>real (length posts) / 6\<rceil>)) \<and>
   (distinct (map post_id posts) \<longrightarrow>
      (\<forall>i j. 1 \<le> i \<and> i < j \<longrightarrow>
         set (view_posts (listing rt (int i) posts)) \<inter>
         set (view_posts (listing rt (int j) posts)) = {})) \<and>
   mset (sortedPosts rt posts) = mset posts \<and>
   (dates_valid rt posts \<longrightarrow> sorted_wrt (not_older rt) (sortedPosts rt posts))"
proof -
  let ?T = "ceil_div (length posts) 6"
  let ?s = "sortedPosts rt posts"
  have T: "nat \<lceil>real (length posts) / 6\<rceil> = ?T"
    using ceil_div_real [of 6 "length posts"] by simp
  have "map (\<lambda>k. view_posts (listing rt (int k) posts)) [1..<Suc ?T] =
        map (\<lambda>k. view_posts (listing rt (int (Suc k)) posts)) [0..<?T]"
    by (simp only: map_Suc_upt [symmetric] One_nat_def map_map o_def)
  also have "\<dots> = map (\<lambda>k. take 6 (drop (k * 6) ?s)) [0..<?T]"
    by (simp only: listing_page view_posts.simps)
  finally have "concat (map (\<lambda>k. view_posts (listing rt (int k) posts)) [1..<Suc ?T]) =
                take (?T * 6) ?s"
    by (simp only: concat_pages)
  moreover have "length ?s \<le> ?T * 6"
    using ceil_div_covers [of 6 "length posts"] by (simp add: sortedPosts_length)
  ultimately have whole:
    "concat (map (\<lambda>k. view_posts (listing rt (int k) posts)) [1..<Suc ?T]) = ?s"
    by simp
  have total: "listing rt page posts = Posts_view (view_posts (listing rt page posts)) page ?T"
    for page
    by (simp add: listing_def Let_def sortedPosts_length)
  have disjoint:
    "set (view_posts (listing rt (int i) posts)) \<inter>
     set (view_posts (listing rt (int j) posts)) = {}"
    if d: "distinct (map post_id posts)" and ij: "1 \<le> i \<and> i < j" for i j
  proof -
    from ij obtain i' j' where "i = Suc i'" "j = Suc j'" "i' < j'"
      by (metis One_nat_def Suc_le_D Suc_less_eq less_imp_Suc_add)
    moreover have "distinct ?s" using d by (rule sortedPosts_distinct)
    ultimately show ?thesis
      by (simp only: listing_page view_posts.simps pages_disjoint)
  qed
  have ordered: "dates_valid rt posts \<longrightarrow> sorted_wrt (not_older rt) ?s"
    by (simp add: sortedPosts_ordered)
  show ?thesis
    unfolding T using whole total disjoint ordered sortedPosts_mset [of rt posts] by blast
qed


theorem listing_pages_partition_witness:
  "distinct (map post_id seven_posts) \<and> dates_valid example_runtime seven_posts \<and>
   nat \<lceil>real (length seven_posts) / 6\<rceil> = 2 \<and>
   listing example_runtime 1 seven_posts =
     Posts_view [post_C, post_C\<lparr>post_id := 6\<rparr>, post_B, post_B\<lparr>post_id := 5\<rparr>,
                 post_A, post_A\<lparr>post_id := 4\<rparr>] 1 2 \<and>
   listing example_runtime 2 seven_posts = Posts_view [post_A\<lparr>post_id := 7\<rparr>] 2 2 \<and>
   sortedPosts example_runtime seven_posts =
     [post_C, post_C\<lparr>post_id := 6\<rparr>, post_B, post_B\<lparr>post_id := 5\<rparr>,
      post_A, post_A\<lparr>post_id := 4\<rparr>] @ [post_A\<lparr>post_id := 7\<rparr>] \<and>
   set (view_posts (listing example_runtime 1 seven_posts)) \<inter>
   set (view_posts (listing example_runtime 2 seven_posts)) = {} \<and>
   sorted_wrt (not_older example_runtime) (sortedPosts example_runtime seven_posts)"
proof -
  have d: "distinct (map post_id seven_posts)" by code_simp
  have v: "dates_valid example_runtime seven_posts" by code_simp
  have n: "nat \<lceil>real (length seven_posts) / 6\<rceil> = 2"
    by (simp add: seven_posts_def)
  have p1: "listing example_runtime 1 seven_posts =
     Posts_view [post_C, post_C\<lparr>post_id := 6\<rparr>, post_B, post_B\<lparr>post_id := 5\<rparr>,
                 post_A, post_A\<lparr>post_id := 4\<rparr>] 1 2" by code_simp
  have p2: "listing example_runtime 2 seven_posts = Posts_view [post_A\<lparr>post_id := 7\<rparr>] 2 2"
    by code_simp
  note t = listing_pages_partition [of example_runtime seven_posts]
  have u: "[1..<Suc 2] = [1, 2]" by (simp add: upt_rec)
  from t have whole: "concat (map (\<lambda>k. view_posts (listing example_runtime (int k) seven_posts))
             [1..<Suc 2]) = sortedPosts example_runtime seven_posts"
    unfolding n by blast
  from t d have "\<forall>i j. 1 \<le> i \<and> i < j \<longrightarrow>
         set (view_posts (listing example_runtime (int i) seven_posts)) \<inter>
         set (view_posts (listing example_runtime (int j) seven_posts)) = {}"
    by blast
  from this [rule_format, of 1 2] have dis: "set (view_posts (listing example_runtime 1 seven_posts)) \<inter>
                  set (view_posts (listing example_runtime 2 seven_posts)) = {}"
    by simp
  from t v have ord: "sorted_wrt (not_older example_runtime) (sortedPosts example_runtime seven_posts)"
    by blast
  from whole have so: "sortedPosts example_runtime seven_posts =
     [post_C, post_C\<lparr>post_id := 6\<rparr>, post_B, post_B\<lparr>post_id := 5\<rparr>,
      post_A, post_A\<lparr>post_id := 4\<rparr>] @ [post_A\<lparr>post_id := 7\<rparr>]"
    unfolding u by (simp add: p1 p2)
  from d v n p1 p2 so dis ord show ?thesis by blast
qed

section \<open>Search\<close>






section \<open>A single post\<close>

lemma strict_equal_Some: "strict_equal x (Some v) = (x = v)"
  by (simp add: strict_equal_def)

lemma locate_position:
  assumes d: "distinct (map post_id posts)" and k: "k < length posts"
  shows "locate rt (Some (post_id (sortedPosts rt posts ! k))) posts =
         Page 200 (Post_view (sortedPosts rt posts ! k)
           (processPostContent rt (content (sortedPosts rt posts ! k)))
           (if k + 1 < length posts then Some (sortedPosts rt posts ! (k + 1)) else None)
           (if 0 < k then Some (sortedPosts rt posts ! (k - 1)) else None))"
proof -
  let ?s = "sortedPosts rt posts"
  let ?x = "?s ! k"
  have len: "length ?s = length posts" by (rule sortedPosts_length)
  have ds: "distinct (map post_id ?s)" using d by (simp add: sortedPosts_distinct_ids)
  have "?x \<in> set ?s" using k len by simp
  then have mem: "?x \<in> set posts" by (simp add: sortedPosts_set)
  have found: "find (\<lambda>p. strict_equal (post_id p) (Some (post_id ?x))) posts = Some ?x"
    using find_unique [OF d mem] by (simp add: strict_equal_Some)
  have idx: "findIndex (\<lambda>p. strict_equal (post_id p) (Some (post_id ?x))) ?s = int k"
    using findIndex_from_unique [OF ds, of k 0] k len
    by (simp add: strict_equal_Some findIndex_def)
  have prev: "(if int k < int (length ?s) - 1 then at_index ?s (int k + 1) else None) =
              (if k + 1 < length posts then Some (?s ! (k + 1)) else None)"
    using len by (auto simp: at_index_def nat_add_distrib)
  have nxt: "(if int k > 0 then at_index ?s (int k - 1) else None) =
             (if 0 < k then Some (?s ! (k - 1)) else None)"
    using len k by (auto simp: at_index_def nat_diff_distrib)
  show ?thesis
    by (simp only: locate_def found option.case Let_def idx prev nxt)
qed

text \<open>
  Claim C5. In a stored collection whose identifiers are distinct and whose dates are
  all valid, a request for the identifier of the post at position \<open>k\<close> of the collection
  sorted by date shows that post, with \<^verbatim>\<open>prevPost\<close> the post at position \<open>k + 1\<close>, or
  none when \<open>k\<close> is the last position, and \<^verbatim>\<open>nextPost\<close> the post at position \<open>k - 1\<close>,
  or none when \<open>k\<close> is 0. The positions are those of the order by date, newest first: the
  sorted collection holds the stored posts, each once, and no post of it comes before a
  newer one.
\<close>

theorem post_neighbours:
  assumes "posts_json st \<noteq> Unreadable"
      and "distinct (map post_id (stored_posts st))"
      and "dates_valid rt (stored_posts st)"
      and "k < length (stored_posts st)"
      and "parseInt id_param = Some (post_id (sortedPosts rt (stored_posts st) ! k))"
  shows "get_post rt id_param st =
         (Page 200 (Post_view (sortedPosts rt (stored_posts st) ! k)
            (processPostContent rt (content (sortedPosts rt (stored_posts st) ! k)))
            (if k + 1 < length (stored_posts st)
             then Some (sortedPosts rt (stored_posts st) ! (k + 1)) else None)
            (if 0 < k then Some (sortedPosts rt (stored_posts st) ! (k - 1)) else None)),
          loaded st) \<and>
         sorted_wrt (not_older rt) (sortedPosts rt (stored_posts st)) \<and>
         mset (sortedPosts rt (stored_posts st)) = mset (stored_posts st) \<and>
         (\<forall>i j. i < j \<and> j < length (stored_posts st) \<longrightarrow>
            not_older rt (sortedPosts rt (stored_posts st) ! i)
                         (sortedPosts rt (stored_posts st) ! j))"
proof -
  let ?s = "sortedPosts rt (stored_posts st)"
  have page: "get_post rt id_param st =
         (Page 200 (Post_view (?s ! k) (processPostContent rt (content (?s ! k)))
            (if k + 1 < length (stored_posts st) then Some (?s ! (k + 1)) else None)
            (if 0 < k then Some (?s ! (k - 1)) else None)),
          loaded st)"
    using assms(1,5) locate_position [OF assms(2,4), of rt]
    by (simp add: get_post_def readPosts_readable)
  have ordered: "sorted_wrt (not_older rt) ?s"
    using assms(3) by (rule sortedPosts_ordered)
  have "not_older rt (?s ! i) (?s ! j)" if "i < j \<and> j < length (stored_posts st)" for i j
    using ordered that by (simp add: sorted_wrt_iff_nth_less sortedPosts_length)
  with page ordered show ?thesis
    by (simp add: sortedPosts_mset)
qed

theorem post_neighbours_witness:
  "stored_posts store_BCA = [post_B, post_C, post_A] \<and>
   distinct (map post_id (stored_posts store_BCA)) \<and>
   dates_valid example_runtime (stored_posts store_BCA) \<and>
   sortedPosts example_runtime (stored_posts store_BCA) = [post_C, post_B, post_A] \<and>
   get_post example_runtime (Some (js ''3'')) store_BCA =
     (Page 200 (Post_view post_C (processPostContent example_runtime (content post_C))
        (Some post_B) None), store_BCA) \<and>
   get_post example_runtime (Some (js ''2'')) store_BCA =
     (Page 200 (Post_view post_B (processPostContent example_runtime (content post_B))
        (Some post_A) (Some post_C)), store_BCA) \<and>
   get_post example_runtime (Some (js ''1'')) store_BCA =
     (Page 200 (Post_view post_A (processPostContent example_runtime (content post_A))
        None (Some post_B)), store_BCA) \<and>
   not_older example_runtime post_C post_B \<and> not_older example_runtime post_B post_A \<and>
   \<not> not_older example_runtime post_A post_B"
proof -
  have r: "posts_json store_BCA \<noteq> Unreadable" by (simp add: store_BCA_def)
  have sp: "stored_posts store_BCA = [post_B, post_C, post_A]"
    by (simp add: store_BCA_def stored_posts_def)
  have l: "loaded store_BCA = store_BCA" by (simp add: store_BCA_def loaded_def)
  have d: "distinct (map post_id (stored_posts store_BCA))" unfolding sp by code_simp
  have v: "dates_valid example_runtime (stored_posts store_BCA)" unfolding sp by code_simp
  have so: "sortedPosts example_runtime [post_B, post_C, post_A] = [post_C, post_B, post_A]"
    by code_simp
  have p3: "parseInt (Some (js ''3'')) = Some (post_id post_C)" by code_simp
  have p2: "parseInt (Some (js ''2'')) = Some (post_id post_B)" by code_simp
  have p1: "parseInt (Some (js ''1'')) = Some (post_id post_A)" by code_simp
  have n: "\<not> not_older example_runtime post_A post_B" by code_simp
  have 0: "get_post example_runtime (Some (js ''3'')) store_BCA =
     (Page 200 (Post_view post_C (processPostContent example_runtime (content post_C))
        (Some post_B) None), store_BCA) \<and>
     sorted_wrt (not_older example_runtime) [post_C, post_B, post_A]"
    using post_neighbours [OF r d v, of 0 "Some (js ''3'')"] p3
    by (simp add: sp so l)
  have 1: "get_post example_runtime (Some (js ''2'')) store_BCA =
     (Page 200 (Post_view post_B (processPostContent example_runtime (content post_B))
        (Some post_A) (Some post_C)), store_BCA)"
    using post_neighbours [OF r d v, of 1 "Some (js ''2'')"] p2
    by (simp add: sp so l)
  have 2: "get_post example_runtime (Some (js ''1'')) store_BCA =
     (Page 200 (Post_view post_A (processPostContent example_runtime (content post_A))
        None (Some post_B)), store_BCA)"
    using post_neighbours [OF r d v, of 2 "Some (js ''1'')"] p1
    by (simp add: sp so l)
  from 0 have "not_older example_runtime post_C post_B \<and> not_older example_runtime post_B post_A"
    by simp
  with sp d v so 0 1 2 n show ?thesis by simp
qed

text \<open>
  Claim C9. When the \<^verbatim>\<open>id\<close> parameter of a request for a post is absent or has no
  integer that \<^verbatim>\<open>parseInt\<close> can read, and the store can be read, the response is the
  error page with status 404: the identifier is \<open>NaN\<close>, which is equal to the identifier
  of no post.
\<close>

theorem post_unparsable_id:
  assumes "id_param = None \<or> parseInt id_param = None" and "posts_json st \<noteq> Unreadable"
  shows "get_post rt id_param st = (Page 404 (Error_view ''Post not found''), loaded st)"
proof -
  have nan: "parseInt id_param = None"
    using assms(1) by (auto simp: parseInt_def)
  have "find (\<lambda>p. strict_equal (post_id p) None) posts = None" for posts :: "post list"
    by (induction posts) (simp_all add: strict_equal_def)
  then show ?thesis
    using nan assms(2) by (simp add: get_post_def locate_def readPosts_readable)
qed

theorem post_unparsable_id_witness:
  "parseInt None = None \<and> parseInt (Some (js ''abc'')) = None \<and>
   get_post example_runtime None store_AB = (Page 404 (Error_view ''Post not found''), store_AB) \<and>
   get_post example_runtime (Some (js ''abc'')) store_AB =
     (Page 404 (Error_view ''Post not found''), store_AB)"
proof -
  have a: "parseInt (Some (js ''abc'')) = None" by code_simp
  have n: "parseInt None = None" by code_simp
  have r: "posts_json store_AB \<noteq> Unreadable" by (simp add: store_AB_def)
  have l: "loaded store_AB = store_AB" by (simp add: loaded_def store_AB_def)
  have "get_post example_runtime None store_AB =
          (Page 404 (Error_view ''Post not found''), loaded store_AB)"
    using post_unparsable_id [of None store_AB example_runtime] r by simp
  moreover have "get_post example_runtime (Some (js ''abc'')) store_AB =
          (Page 404 (Error_view ''Post not found''), loaded store_AB)"
    using post_unparsable_id [of "Some (js ''abc'')" store_AB example_runtime] a r by simp
  ultimately show ?thesis using a n l by simp
qed

section \<open>The store under the handlers\<close>

lemma snd_get_home: "snd (get_home rt st) = loaded st"
  by (cases "posts_json st = Unreadable")
     (simp_all add: get_home_def readPosts_readable readPosts_unreadable loaded_unreadable)

lemma snd_get_posts: "snd (get_posts rt page_param st) = loaded st"
  by (cases "posts_json st = Unreadable")
     (simp_all add: get_posts_def readPosts_readable readPosts_unreadable loaded_unreadable)

lemma snd_get_post: "snd (get_post rt id_param st) = loaded st"
  by (cases "posts_json st = Unreadable")
     (simp_all add: get_post_def readPosts_readable readPosts_unreadable loaded_unreadable)

lemma snd_get_search:
  "snd (get_search rt q st) = (if q = None \<or> q = Some [] then st else loaded st)"
  by (cases "posts_json st = Unreadable")
     (auto simp: get_search_def Let_def string_or_def toLowerCase_empty readPosts_readable
        readPosts_unreadable loaded_unreadable split: option.splits)

text \<open>
  Claim C10. The handlers that read (the home page, the listing, the single post and the
  search) return the store as a load leaves it, and a search without a query returns it
  untouched; the form and the preview return it untouched. A load keeps the posts the
  store holds: it leaves a store whose file exists as it is, log of writes included, and
  on a store whose file is absent it writes the file once, with no post.
\<close>

theorem reading_keeps_store:
  "snd (get_home rt st) = loaded st \<and>
   snd (get_posts rt page_param st) = loaded st \<and>
   snd (get_post rt id_param st) = loaded st \<and>
   snd (get_search rt q st) = (if q = None \<or> q = Some [] then st else loaded st) \<and>
   snd (get_add_post st) = st \<and>
   snd (post_preview_post rt content_param st) = st \<and>
   stored_posts (loaded st) = stored_posts st \<and>
   (posts_json st \<noteq> Absent \<longrightarrow> loaded st = st) \<and>
   (posts_json st = Absent \<longrightarrow>
      loaded st = st\<lparr>posts_json := Holds [], writes := writes st @ [[]]\<rparr>)"
proof -
  have "snd (post_preview_post rt content_param st) = st"
    by (simp add: post_preview_post_def split: option.split)
  moreover have "posts_json st \<noteq> Absent \<longrightarrow> loaded st = st"
    by (cases "posts_json st") (simp_all add: loaded_def)
  moreover have "posts_json st = Absent \<longrightarrow>
      loaded st = st\<lparr>posts_json := Holds [], writes := writes st @ [[]]\<rparr>"
    by (simp add: loaded_def)
  ultimately show ?thesis
    by (simp only: snd_get_home snd_get_posts snd_get_post snd_get_search stored_posts_loaded
        get_add_post_def snd_conv)
qed

theorem reading_keeps_store_witness:
  "posts_json store_AB \<noteq> Absent \<and>
   snd (get_home example_runtime store_AB) = store_AB \<and>
   snd (get_posts example_runtime (Some (js ''2'')) store_AB) = store_AB \<and>
   snd (get_post example_runtime (Some (js ''1'')) store_AB) = store_AB \<and>
   snd (get_search example_runtime (Some (js ''ann'')) store_AB) = store_AB \<and>
   posts_json \<lparr> posts_json = Absent, writes = [] \<rparr> = Absent \<and>
   snd (get_home example_runtime \<lparr> posts_json = Absent, writes = [] \<rparr>) =
     \<lparr> posts_json = Holds [], writes = [[]] \<rparr> \<and>
   snd (get_search example_runtime None \<lparr> posts_json = Absent, writes = [] \<rparr>) =
     \<lparr> posts_json = Absent, writes = [] \<rparr>"
proof -
  let ?absent = "\<lparr> posts_json = Absent, writes = [] \<rparr>"
  have p: "posts_json store_AB \<noteq> Absent" by (simp add: store_AB_def)
  have a: "posts_json ?absent = Absent" by simp
  note t1 = reading_keeps_store [of example_runtime store_AB "Some (js ''2'')" "Some (js ''1'')"
      "Some (js ''ann'')" None]
  note t2 = reading_keeps_store [of example_runtime ?absent None None None None]
  from t1 p have l: "loaded store_AB = store_AB" by blast
  from t2 a have la: "loaded ?absent = \<lparr> posts_json = Holds [], writes = [[]] \<rparr>" by simp
  from t1 have "snd (get_home example_runtime store_AB) = store_AB \<and>
   snd (get_posts example_runtime (Some (js ''2'')) store_AB) = store_AB \<and>
   snd (get_post example_runtime (Some (js ''1'')) store_AB) = store_AB \<and>
   snd (get_search example_runtime (Some (js ''ann'')) store_AB) = store_AB"
    unfolding l by simp
  moreover from t2 have "snd (get_home example_runtime ?absent) =
     \<lparr> posts_json = Holds [], writes = [[]] \<rparr> \<and>
   snd (get_search example_runtime None ?absent) = ?absent"
    unfolding la by simp
  ultimately show ?thesis using p a by blast
qed

end
